theory Spec2Isabelle
  imports Main "HOL-Library.Word"
begin

unbundle bit_operations_syntax

section \<open>The SEED-128 block cipher of seed.go\<close>

text \<open>
  Go's \<open>byte\<close> and \<open>uint32\<close> are words of 8 and 32 bits: \<open>+\<close> and \<open>-\<close> wrap
  around, \<open>x << n\<close> is \<open>push_bit n x\<close>, \<open>x >> n\<close> is \<open>drop_bit n x\<close>, and
  \<open>&\<close>, \<open>|\<close>, \<open>^\<close> are \<open>AND\<close>, \<open>OR\<close>, \<open>XOR\<close>. A byte slice is a list of
  bytes, a fixed-size array \<open>[n]uint32\<close> a list of length \<open>n\<close>.
\<close>

type_synonym byte = "8 word"
type_synonym u32 = "32 word"

subsection \<open>Byte rotation helpers\<close>

definition rotlbyte32 :: "u32 \<Rightarrow> u32 \<Rightarrow> u32 \<times> u32" where
  "rotlbyte32 x0 x1 =
     (let b0 = drop_bit 24 (x0 AND 0xff000000);
          b1 = drop_bit 24 (x1 AND 0xff000000);
          x0' = push_bit 8 x0 OR b1;
          x1' = push_bit 8 x1 OR b0
      in (x0', x1'))"

definition rotrbyte32 :: "u32 \<Rightarrow> u32 \<Rightarrow> u32 \<times> u32" where
  "rotrbyte32 x0 x1 =
     (let b0 = push_bit 24 (x0 AND 0x000000ff);
          b1 = push_bit 24 (x1 AND 0x000000ff);
          x0' = drop_bit 8 x0 OR b1;
          x1' = drop_bit 8 x1 OR b0
      in (x0', x1'))"

subsection \<open>Round constants and extended S-boxes\<close>

text \<open>Entry 0 of \<open>kc\<close> is the source's place holder; the rounds use entries 1 to 16.\<close>

definition kc :: "u32 list" where
  "kc = [
    0x00000000, 0x9E3779B9, 0x3C6EF373, 0x78DDE6E6, 0xF1BBCDCC, 0xE3779B99, 0xC6EF3733, 0x8DDE6E67,
    0x1BBCDCCF, 0x3779B99E, 0x6EF3733C, 0xDDE6E678, 0xBBCDCCF1, 0x779B99E3, 0xEF3733C6, 0xDE6E678D,
    0xBCDCCF1B]"

definition ss0 :: "u32 list" where
  "ss0 = [
    0x2989A1A8, 0x05858184, 0x16C6D2D4, 0x13C3D3D0, 0x14445054, 0x1D0D111C, 0x2C8CA0AC, 0x25052124,
    0x1D4D515C, 0x03434340, 0x18081018, 0x1E0E121C, 0x11415150, 0x3CCCF0FC, 0x0ACAC2C8, 0x23436360,
    0x28082028, 0x04444044, 0x20002020, 0x1D8D919C, 0x20C0E0E0, 0x22C2E2E0, 0x08C8C0C8, 0x17071314,
    0x2585A1A4, 0x0F8F838C, 0x03030300, 0x3B4B7378, 0x3B8BB3B8, 0x13031310, 0x12C2D2D0, 0x2ECEE2EC,
    0x30407070, 0x0C8C808C, 0x3F0F333C, 0x2888A0A8, 0x32023230, 0x1DCDD1DC, 0x36C6F2F4, 0x34447074,
    0x2CCCE0EC, 0x15859194, 0x0B0B0308, 0x17475354, 0x1C4C505C, 0x1B4B5358, 0x3D8DB1BC, 0x01010100,
    0x24042024, 0x1C0C101C, 0x33437370, 0x18889098, 0x10001010, 0x0CCCC0CC, 0x32C2F2F0, 0x19C9D1D8,
    0x2C0C202C, 0x27C7E3E4, 0x32427270, 0x03838380, 0x1B8B9398, 0x11C1D1D0, 0x06868284, 0x09C9C1C8,
    0x20406060, 0x10405050, 0x2383A3A0, 0x2BCBE3E8, 0x0D0D010C, 0x3686B2B4, 0x1E8E929C, 0x0F4F434C,
    0x3787B3B4, 0x1A4A5258, 0x06C6C2C4, 0x38487078, 0x2686A2A4, 0x12021210, 0x2F8FA3AC, 0x15C5D1D4,
    0x21416160, 0x03C3C3C0, 0x3484B0B4, 0x01414140, 0x12425250, 0x3D4D717C, 0x0D8D818C, 0x08080008,
    0x1F0F131C, 0x19899198, 0x00000000, 0x19091118, 0x04040004, 0x13435350, 0x37C7F3F4, 0x21C1E1E0,
    0x3DCDF1FC, 0x36467274, 0x2F0F232C, 0x27072324, 0x3080B0B0, 0x0B8B8388, 0x0E0E020C, 0x2B8BA3A8,
    0x2282A2A0, 0x2E4E626C, 0x13839390, 0x0D4D414C, 0x29496168, 0x3C4C707C, 0x09090108, 0x0A0A0208,
    0x3F8FB3BC, 0x2FCFE3EC, 0x33C3F3F0, 0x05C5C1C4, 0x07878384, 0x14041014, 0x3ECEF2FC, 0x24446064,
    0x1ECED2DC, 0x2E0E222C, 0x0B4B4348, 0x1A0A1218, 0x06060204, 0x21012120, 0x2B4B6368, 0x26466264,
    0x02020200, 0x35C5F1F4, 0x12829290, 0x0A8A8288, 0x0C0C000C, 0x3383B3B0, 0x3E4E727C, 0x10C0D0D0,
    0x3A4A7278, 0x07474344, 0x16869294, 0x25C5E1E4, 0x26062224, 0x00808080, 0x2D8DA1AC, 0x1FCFD3DC,
    0x2181A1A0, 0x30003030, 0x37073334, 0x2E8EA2AC, 0x36063234, 0x15051114, 0x22022220, 0x38083038,
    0x34C4F0F4, 0x2787A3A4, 0x05454144, 0x0C4C404C, 0x01818180, 0x29C9E1E8, 0x04848084, 0x17879394,
    0x35053134, 0x0BCBC3C8, 0x0ECEC2CC, 0x3C0C303C, 0x31417170, 0x11011110, 0x07C7C3C4, 0x09898188,
    0x35457174, 0x3BCBF3F8, 0x1ACAD2D8, 0x38C8F0F8, 0x14849094, 0x19495158, 0x02828280, 0x04C4C0C4,
    0x3FCFF3FC, 0x09494148, 0x39093138, 0x27476364, 0x00C0C0C0, 0x0FCFC3CC, 0x17C7D3D4, 0x3888B0B8,
    0x0F0F030C, 0x0E8E828C, 0x02424240, 0x23032320, 0x11819190, 0x2C4C606C, 0x1BCBD3D8, 0x2484A0A4,
    0x34043034, 0x31C1F1F0, 0x08484048, 0x02C2C2C0, 0x2F4F636C, 0x3D0D313C, 0x2D0D212C, 0x00404040,
    0x3E8EB2BC, 0x3E0E323C, 0x3C8CB0BC, 0x01C1C1C0, 0x2A8AA2A8, 0x3A8AB2B8, 0x0E4E424C, 0x15455154,
    0x3B0B3338, 0x1CCCD0DC, 0x28486068, 0x3F4F737C, 0x1C8C909C, 0x18C8D0D8, 0x0A4A4248, 0x16465254,
    0x37477374, 0x2080A0A0, 0x2DCDE1EC, 0x06464244, 0x3585B1B4, 0x2B0B2328, 0x25456164, 0x3ACAF2F8,
    0x23C3E3E0, 0x3989B1B8, 0x3181B1B0, 0x1F8F939C, 0x1E4E525C, 0x39C9F1F8, 0x26C6E2E4, 0x3282B2B0,
    0x31013130, 0x2ACAE2E8, 0x2D4D616C, 0x1F4F535C, 0x24C4E0E4, 0x30C0F0F0, 0x0DCDC1CC, 0x08888088,
    0x16061214, 0x3A0A3238, 0x18485058, 0x14C4D0D4, 0x22426260, 0x29092128, 0x07070304, 0x33033330,
    0x28C8E0E8, 0x1B0B1318, 0x05050104, 0x39497178, 0x10809090, 0x2A4A6268, 0x2A0A2228, 0x1A8A9298]"

definition ss1 :: "u32 list" where
  "ss1 = [
    0x38380830, 0xE828C8E0, 0x2C2D0D21, 0xA42686A2, 0xCC0FCFC3, 0xDC1ECED2, 0xB03383B3, 0xB83888B0,
    0xAC2F8FA3, 0x60204060, 0x54154551, 0xC407C7C3, 0x44044440, 0x6C2F4F63, 0x682B4B63, 0x581B4B53,
    0xC003C3C3, 0x60224262, 0x30330333, 0xB43585B1, 0x28290921, 0xA02080A0, 0xE022C2E2, 0xA42787A3,
    0xD013C3D3, 0x90118191, 0x10110111, 0x04060602, 0x1C1C0C10, 0xBC3C8CB0, 0x34360632, 0x480B4B43,
    0xEC2FCFE3, 0x88088880, 0x6C2C4C60, 0xA82888A0, 0x14170713, 0xC404C4C0, 0x14160612, 0xF434C4F0,
    0xC002C2C2, 0x44054541, 0xE021C1E1, 0xD416C6D2, 0x3C3F0F33, 0x3C3D0D31, 0x8C0E8E82, 0x98188890,
    0x28280820, 0x4C0E4E42, 0xF436C6F2, 0x3C3E0E32, 0xA42585A1, 0xF839C9F1, 0x0C0D0D01, 0xDC1FCFD3,
    0xD818C8D0, 0x282B0B23, 0x64264662, 0x783A4A72, 0x24270723, 0x2C2F0F23, 0xF031C1F1, 0x70324272,
    0x40024242, 0xD414C4D0, 0x40014141, 0xC000C0C0, 0x70334373, 0x64274763, 0xAC2C8CA0, 0x880B8B83,
    0xF437C7F3, 0xAC2D8DA1, 0x80008080, 0x1C1F0F13, 0xC80ACAC2, 0x2C2C0C20, 0xA82A8AA2, 0x34340430,
    0xD012C2D2, 0x080B0B03, 0xEC2ECEE2, 0xE829C9E1, 0x5C1D4D51, 0x94148490, 0x18180810, 0xF838C8F0,
    0x54174753, 0xAC2E8EA2, 0x08080800, 0xC405C5C1, 0x10130313, 0xCC0DCDC1, 0x84068682, 0xB83989B1,
    0xFC3FCFF3, 0x7C3D4D71, 0xC001C1C1, 0x30310131, 0xF435C5F1, 0x880A8A82, 0x682A4A62, 0xB03181B1,
    0xD011C1D1, 0x20200020, 0xD417C7D3, 0x00020202, 0x20220222, 0x04040400, 0x68284860, 0x70314171,
    0x04070703, 0xD81BCBD3, 0x9C1D8D91, 0x98198991, 0x60214161, 0xBC3E8EB2, 0xE426C6E2, 0x58194951,
    0xDC1DCDD1, 0x50114151, 0x90108090, 0xDC1CCCD0, 0x981A8A92, 0xA02383A3, 0xA82B8BA3, 0xD010C0D0,
    0x80018181, 0x0C0F0F03, 0x44074743, 0x181A0A12, 0xE023C3E3, 0xEC2CCCE0, 0x8C0D8D81, 0xBC3F8FB3,
    0x94168692, 0x783B4B73, 0x5C1C4C50, 0xA02282A2, 0xA02181A1, 0x60234363, 0x20230323, 0x4C0D4D41,
    0xC808C8C0, 0x9C1E8E92, 0x9C1C8C90, 0x383A0A32, 0x0C0C0C00, 0x2C2E0E22, 0xB83A8AB2, 0x6C2E4E62,
    0x9C1F8F93, 0x581A4A52, 0xF032C2F2, 0x90128292, 0xF033C3F3, 0x48094941, 0x78384870, 0xCC0CCCC0,
    0x14150511, 0xF83BCBF3, 0x70304070, 0x74354571, 0x7C3F4F73, 0x34350531, 0x10100010, 0x00030303,
    0x64244460, 0x6C2D4D61, 0xC406C6C2, 0x74344470, 0xD415C5D1, 0xB43484B0, 0xE82ACAE2, 0x08090901,
    0x74364672, 0x18190911, 0xFC3ECEF2, 0x40004040, 0x10120212, 0xE020C0E0, 0xBC3D8DB1, 0x04050501,
    0xF83ACAF2, 0x00010101, 0xF030C0F0, 0x282A0A22, 0x5C1E4E52, 0xA82989A1, 0x54164652, 0x40034343,
    0x84058581, 0x14140410, 0x88098981, 0x981B8B93, 0xB03080B0, 0xE425C5E1, 0x48084840, 0x78394971,
    0x94178793, 0xFC3CCCF0, 0x1C1E0E12, 0x80028282, 0x20210121, 0x8C0C8C80, 0x181B0B13, 0x5C1F4F53,
    0x74374773, 0x54144450, 0xB03282B2, 0x1C1D0D11, 0x24250521, 0x4C0F4F43, 0x00000000, 0x44064642,
    0xEC2DCDE1, 0x58184850, 0x50124252, 0xE82BCBE3, 0x7C3E4E72, 0xD81ACAD2, 0xC809C9C1, 0xFC3DCDF1,
    0x30300030, 0x94158591, 0x64254561, 0x3C3C0C30, 0xB43686B2, 0xE424C4E0, 0xB83B8BB3, 0x7C3C4C70,
    0x0C0E0E02, 0x50104050, 0x38390931, 0x24260622, 0x30320232, 0x84048480, 0x68294961, 0x90138393,
    0x34370733, 0xE427C7E3, 0x24240420, 0xA42484A0, 0xC80BCBC3, 0x50134353, 0x080A0A02, 0x84078783,
    0xD819C9D1, 0x4C0C4C40, 0x80038383, 0x8C0F8F83, 0xCC0ECEC2, 0x383B0B33, 0x480A4A42, 0xB43787B3]"

definition ss2 :: "u32 list" where
  "ss2 = [
    0xA1A82989, 0x81840585, 0xD2D416C6, 0xD3D013C3, 0x50541444, 0x111C1D0D, 0xA0AC2C8C, 0x21242505,
    0x515C1D4D, 0x43400343, 0x10181808, 0x121C1E0E, 0x51501141, 0xF0FC3CCC, 0xC2C80ACA, 0x63602343,
    0x20282808, 0x40440444, 0x20202000, 0x919C1D8D, 0xE0E020C0, 0xE2E022C2, 0xC0C808C8, 0x13141707,
    0xA1A42585, 0x838C0F8F, 0x03000303, 0x73783B4B, 0xB3B83B8B, 0x13101303, 0xD2D012C2, 0xE2EC2ECE,
    0x70703040, 0x808C0C8C, 0x333C3F0F, 0xA0A82888, 0x32303202, 0xD1DC1DCD, 0xF2F436C6, 0x70743444,
    0xE0EC2CCC, 0x91941585, 0x03080B0B, 0x53541747, 0x505C1C4C, 0x53581B4B, 0xB1BC3D8D, 0x01000101,
    0x20242404, 0x101C1C0C, 0x73703343, 0x90981888, 0x10101000, 0xC0CC0CCC, 0xF2F032C2, 0xD1D819C9,
    0x202C2C0C, 0xE3E427C7, 0x72703242, 0x83800383, 0x93981B8B, 0xD1D011C1, 0x82840686, 0xC1C809C9,
    0x60602040, 0x50501040, 0xA3A02383, 0xE3E82BCB, 0x010C0D0D, 0xB2B43686, 0x929C1E8E, 0x434C0F4F,
    0xB3B43787, 0x52581A4A, 0xC2C406C6, 0x70783848, 0xA2A42686, 0x12101202, 0xA3AC2F8F, 0xD1D415C5,
    0x61602141, 0xC3C003C3, 0xB0B43484, 0x41400141, 0x52501242, 0x717C3D4D, 0x818C0D8D, 0x00080808,
    0x131C1F0F, 0x91981989, 0x00000000, 0x11181909, 0x00040404, 0x53501343, 0xF3F437C7, 0xE1E021C1,
    0xF1FC3DCD, 0x72743646, 0x232C2F0F, 0x23242707, 0xB0B03080, 0x83880B8B, 0x020C0E0E, 0xA3A82B8B,
    0xA2A02282, 0x626C2E4E, 0x93901383, 0x414C0D4D, 0x61682949, 0x707C3C4C, 0x01080909, 0x02080A0A,
    0xB3BC3F8F, 0xE3EC2FCF, 0xF3F033C3, 0xC1C405C5, 0x83840787, 0x10141404, 0xF2FC3ECE, 0x60642444,
    0xD2DC1ECE, 0x222C2E0E, 0x43480B4B, 0x12181A0A, 0x02040606, 0x21202101, 0x63682B4B, 0x62642646,
    0x02000202, 0xF1F435C5, 0x92901282, 0x82880A8A, 0x000C0C0C, 0xB3B03383, 0x727C3E4E, 0xD0D010C0,
    0x72783A4A, 0x43440747, 0x92941686, 0xE1E425C5, 0x22242606, 0x80800080, 0xA1AC2D8D, 0xD3DC1FCF,
    0xA1A02181, 0x30303000, 0x33343707, 0xA2AC2E8E, 0x32343606, 0x11141505, 0x22202202, 0x30383808,
    0xF0F434C4, 0xA3A42787, 0x41440545, 0x404C0C4C, 0x81800181, 0xE1E829C9, 0x80840484, 0x93941787,
    0x31343505, 0xC3C80BCB, 0xC2CC0ECE, 0x303C3C0C, 0x71703141, 0x11101101, 0xC3C407C7, 0x81880989,
    0x71743545, 0xF3F83BCB, 0xD2D81ACA, 0xF0F838C8, 0x90941484, 0x51581949, 0x82800282, 0xC0C404C4,
    0xF3FC3FCF, 0x41480949, 0x31383909, 0x63642747, 0xC0C000C0, 0xC3CC0FCF, 0xD3D417C7, 0xB0B83888,
    0x030C0F0F, 0x828C0E8E, 0x42400242, 0x23202303, 0x91901181, 0x606C2C4C, 0xD3D81BCB, 0xA0A42484,
    0x30343404, 0xF1F031C1, 0x40480848, 0xC2C002C2, 0x636C2F4F, 0x313C3D0D, 0x212C2D0D, 0x40400040,
    0xB2BC3E8E, 0x323C3E0E, 0xB0BC3C8C, 0xC1C001C1, 0xA2A82A8A, 0xB2B83A8A, 0x424C0E4E, 0x51541545,
    0x33383B0B, 0xD0DC1CCC, 0x60682848, 0x737C3F4F, 0x909C1C8C, 0xD0D818C8, 0x42480A4A, 0x52541646,
    0x73743747, 0xA0A02080, 0xE1EC2DCD, 0x42440646, 0xB1B43585, 0x23282B0B, 0x61642545, 0xF2F83ACA,
    0xE3E023C3, 0xB1B83989, 0xB1B03181, 0x939C1F8F, 0x525C1E4E, 0xF1F839C9, 0xE2E426C6, 0xB2B03282,
    0x31303101, 0xE2E82ACA, 0x616C2D4D, 0x535C1F4F, 0xE0E424C4, 0xF0F030C0, 0xC1CC0DCD, 0x80880888,
    0x12141606, 0x32383A0A, 0x50581848, 0xD0D414C4, 0x62602242, 0x21282909, 0x03040707, 0x33303303,
    0xE0E828C8, 0x13181B0B, 0x01040505, 0x71783949, 0x90901080, 0x62682A4A, 0x22282A0A, 0x92981A8A]"

definition ss3 :: "u32 list" where
  "ss3 = [
    0x08303838, 0xC8E0E828, 0x0D212C2D, 0x86A2A426, 0xCFC3CC0F, 0xCED2DC1E, 0x83B3B033, 0x88B0B838,
    0x8FA3AC2F, 0x40606020, 0x45515415, 0xC7C3C407, 0x44404404, 0x4F636C2F, 0x4B63682B, 0x4B53581B,
    0xC3C3C003, 0x42626022, 0x03333033, 0x85B1B435, 0x09212829, 0x80A0A020, 0xC2E2E022, 0x87A3A427,
    0xC3D3D013, 0x81919011, 0x01111011, 0x06020406, 0x0C101C1C, 0x8CB0BC3C, 0x06323436, 0x4B43480B,
    0xCFE3EC2F, 0x88808808, 0x4C606C2C, 0x88A0A828, 0x07131417, 0xC4C0C404, 0x06121416, 0xC4F0F434,
    0xC2C2C002, 0x45414405, 0xC1E1E021, 0xC6D2D416, 0x0F333C3F, 0x0D313C3D, 0x8E828C0E, 0x88909818,
    0x08202828, 0x4E424C0E, 0xC6F2F436, 0x0E323C3E, 0x85A1A425, 0xC9F1F839, 0x0D010C0D, 0xCFD3DC1F,
    0xC8D0D818, 0x0B23282B, 0x46626426, 0x4A72783A, 0x07232427, 0x0F232C2F, 0xC1F1F031, 0x42727032,
    0x42424002, 0xC4D0D414, 0x41414001, 0xC0C0C000, 0x43737033, 0x47636427, 0x8CA0AC2C, 0x8B83880B,
    0xC7F3F437, 0x8DA1AC2D, 0x80808000, 0x0F131C1F, 0xCAC2C80A, 0x0C202C2C, 0x8AA2A82A, 0x04303434,
    0xC2D2D012, 0x0B03080B, 0xCEE2EC2E, 0xC9E1E829, 0x4D515C1D, 0x84909414, 0x08101818, 0xC8F0F838,
    0x47535417, 0x8EA2AC2E, 0x08000808, 0xC5C1C405, 0x03131013, 0xCDC1CC0D, 0x86828406, 0x89B1B839,
    0xCFF3FC3F, 0x4D717C3D, 0xC1C1C001, 0x01313031, 0xC5F1F435, 0x8A82880A, 0x4A62682A, 0x81B1B031,
    0xC1D1D011, 0x00202020, 0xC7D3D417, 0x02020002, 0x02222022, 0x04000404, 0x48606828, 0x41717031,
    0x07030407, 0xCBD3D81B, 0x8D919C1D, 0x89919819, 0x41616021, 0x8EB2BC3E, 0xC6E2E426, 0x49515819,
    0xCDD1DC1D, 0x41515011, 0x80909010, 0xCCD0DC1C, 0x8A92981A, 0x83A3A023, 0x8BA3A82B, 0xC0D0D010,
    0x81818001, 0x0F030C0F, 0x47434407, 0x0A12181A, 0xC3E3E023, 0xCCE0EC2C, 0x8D818C0D, 0x8FB3BC3F,
    0x86929416, 0x4B73783B, 0x4C505C1C, 0x82A2A022, 0x81A1A021, 0x43636023, 0x03232023, 0x4D414C0D,
    0xC8C0C808, 0x8E929C1E, 0x8C909C1C, 0x0A32383A, 0x0C000C0C, 0x0E222C2E, 0x8AB2B83A, 0x4E626C2E,
    0x8F939C1F, 0x4A52581A, 0xC2F2F032, 0x82929012, 0xC3F3F033, 0x49414809, 0x48707838, 0xCCC0CC0C,
    0x05111415, 0xCBF3F83B, 0x40707030, 0x45717435, 0x4F737C3F, 0x05313435, 0x00101010, 0x03030003,
    0x44606424, 0x4D616C2D, 0xC6C2C406, 0x44707434, 0xC5D1D415, 0x84B0B434, 0xCAE2E82A, 0x09010809,
    0x46727436, 0x09111819, 0xCEF2FC3E, 0x40404000, 0x02121012, 0xC0E0E020, 0x8DB1BC3D, 0x05010405,
    0xCAF2F83A, 0x01010001, 0xC0F0F030, 0x0A22282A, 0x4E525C1E, 0x89A1A829, 0x46525416, 0x43434003,
    0x85818405, 0x04101414, 0x89818809, 0x8B93981B, 0x80B0B030, 0xC5E1E425, 0x48404808, 0x49717839,
    0x87939417, 0xCCF0FC3C, 0x0E121C1E, 0x82828002, 0x01212021, 0x8C808C0C, 0x0B13181B, 0x4F535C1F,
    0x47737437, 0x44505414, 0x82B2B032, 0x0D111C1D, 0x05212425, 0x4F434C0F, 0x00000000, 0x46424406,
    0xCDE1EC2D, 0x48505818, 0x42525012, 0xCBE3E82B, 0x4E727C3E, 0xCAD2D81A, 0xC9C1C809, 0xCDF1FC3D,
    0x00303030, 0x85919415, 0x45616425, 0x0C303C3C, 0x86B2B436, 0xC4E0E424, 0x8BB3B83B, 0x4C707C3C,
    0x0E020C0E, 0x40505010, 0x09313839, 0x06222426, 0x02323032, 0x84808404, 0x49616829, 0x83939013,
    0x07333437, 0xC7E3E427, 0x04202424, 0x84A0A424, 0xCBC3C80B, 0x43535013, 0x0A02080A, 0x87838407,
    0xC9D1D819, 0x4C404C0C, 0x83838003, 0x8F838C0F, 0xCEC2CC0E, 0x0B33383B, 0x4A42480A, 0x87B3B437]"

subsection \<open>The functions G and F\<close>

text \<open>
  The four indices of \<open>g\<close> are bytes of \<open>x\<close>, so every lookup is inside its table of
  256 entries (lemma \<open>g_index_in_range\<close> below).
\<close>

definition g :: "u32 \<Rightarrow> u32" where
  "g x =
     (let x3 = drop_bit 24 (x AND 0xff000000);
          x2 = drop_bit 16 (x AND 0x00ff0000);
          x1 = drop_bit 8 (x AND 0x0000ff00);
          x0 = x AND 0x000000ff
      in ss0 ! unat x0 XOR ss1 ! unat x1 XOR ss2 ! unat x2 XOR ss3 ! unat x3)"

text \<open>The round function, as the source writes it: two nested expressions.\<close>

definition f :: "u32 \<Rightarrow> u32 \<Rightarrow> u32 \<Rightarrow> u32 \<Rightarrow> u32 \<times> u32" where
  "f k0 k1 r0 r1 =
     (let r0p = g (g (g ((r0 XOR k0) XOR (r1 XOR k1)) + (r0 XOR k0)) + g ((r0 XOR k0) XOR (r1 XOR k1)))
                + g (g ((r0 XOR k0) XOR (r1 XOR k1)) + (r0 XOR k0));
          r1p = g (g (g ((r0 XOR k0) XOR (r1 XOR k1)) + (r0 XOR k0)) + g ((r0 XOR k0) XOR (r1 XOR k1)))
      in (r0p, r1p))"

text \<open>The round function as the specification stages it (section 4.5).\<close>

definition F_spec :: "u32 \<Rightarrow> u32 \<Rightarrow> u32 \<Rightarrow> u32 \<Rightarrow> u32 \<times> u32" where
  "F_spec k0 k1 r0 r1 =
     (let a = r0 XOR k0;
          b = r1 XOR k1;
          c = a XOR b;
          g1 = g c;
          g2 = g (g1 + a);
          g3 = g (g2 + g1)
      in (g3 + g2, g3))"

subsection \<open>The library calls of the source\<close>

text \<open>
  \<open>bytes.Buffer\<close> is the list of the bytes not yet read. \<open>binary.Read\<close> into a
  \<open>*uint32\<close> reads four bytes with \<open>io.ReadFull\<close>: with fewer than four bytes left
  it drains the buffer, returns \<open>io.EOF\<close> (nothing left) or \<open>io.ErrUnexpectedEOF\<close>
  and leaves the variable as it was. \<open>binary.Write\<close> of a \<open>uint32\<close> appends its four
  bytes and cannot fail on a \<open>bytes.Buffer\<close>. The builtin \<open>copy\<close> copies
  \<open>min (len dst) (len src)\<close> elements and never panics.
\<close>

datatype io_error = EOF | ErrUnexpectedEOF

definition BigEndian_Uint32 :: "byte list \<Rightarrow> u32" where
  "BigEndian_Uint32 b =
     ucast (b ! 3) OR push_bit 8 (ucast (b ! 2)) OR push_bit 16 (ucast (b ! 1))
       OR push_bit 24 (ucast (b ! 0))"

definition BigEndian_PutUint32 :: "u32 \<Rightarrow> byte list" where
  "BigEndian_PutUint32 v =
     [ucast (drop_bit 24 v), ucast (drop_bit 16 v), ucast (drop_bit 8 v), ucast v]"

definition binary_Read :: "byte list \<Rightarrow> u32 \<Rightarrow> io_error option \<times> u32 \<times> byte list" where
  "binary_Read buf v =
     (if 4 \<le> length buf then (None, BigEndian_Uint32 (take 4 buf), drop 4 buf)
      else (Some (if buf = [] then EOF else ErrUnexpectedEOF), v, []))"

definition binary_Write :: "byte list \<Rightarrow> u32 \<Rightarrow> io_error option \<times> byte list" where
  "binary_Write buf v = (None, buf @ BigEndian_PutUint32 v)"

definition go_copy :: "byte list \<Rightarrow> byte list \<Rightarrow> byte list" where
  "go_copy dst s = (let n = min (length dst) (length s) in take n s @ drop n dst)"

subsection \<open>The cipher instance\<close>

record SEEDCipher =
  k0 :: "u32 list"
  k1 :: "u32 list"

text \<open>Both fields have the Go type \<open>[17]uint32\<close>: the lists of an instance have length 17.\<close>

definition SEEDCipher_ok :: "SEEDCipher \<Rightarrow> bool" where
  "SEEDCipher_ok c = (length (k0 c) = 17 \<and> length (k1 c) = 17)"

text \<open>\<open>new(SEEDCipher)\<close>: the zero value.\<close>

definition new_SEEDCipher :: SEEDCipher where
  "new_SEEDCipher = \<lparr>k0 = replicate 17 0, k1 = replicate 17 0\<rparr>"

text \<open>
  Modelled from the spec: the type \<open>KeySizeError\<close> is declared in a file of the package
  that is not part of the sources at hand; the key-size error carries the length received.
\<close>

datatype error = KeySizeError int

text \<open>
  The methods have a pointer receiver, \<open>None\<close> is the nil pointer: reading a field
  through it is Go's only panic in these methods.
\<close>

datatype panic = NilPointerDereference

type_synonym block = "u32 \<times> u32 \<times> u32 \<times> u32"

subsection \<open>Encrypt\<close>

definition Encrypt_round :: "SEEDCipher \<Rightarrow> nat \<Rightarrow> block \<Rightarrow> block" where
  "Encrypt_round c i st =
     (case st of (l0, l1, r0, r1) \<Rightarrow>
        let (t0, t1) = (r0, r1);
            (f0, f1) = f (k0 c ! i) (k1 c ! i) r0 r1;
            (r0, r1) = (l0 XOR f0, l1 XOR f1);
            (l0, l1) = (t0, t1)
        in (l0, l1, r0, r1))"

function Encrypt_loop :: "SEEDCipher \<Rightarrow> nat \<Rightarrow> block \<Rightarrow> block" where
  "Encrypt_loop c i st =
     (if i \<le> 15 then Encrypt_loop c (i + 1) (Encrypt_round c i st) else st)"
  by pat_completeness auto
termination
  by (relation "measure (\<lambda>(c, i, st). 16 - i)") auto

declare Encrypt_loop.simps [simp del]

fun Encrypt :: "SEEDCipher option \<Rightarrow> byte list \<Rightarrow> byte list \<Rightarrow> panic + SEEDCipher \<times> byte list" where
  "Encrypt None dst src = Inl NilPointerDereference"
| "Encrypt (Some c) dst src =
     (let (l0, l1, r0, r1) = (0, 0, 0, 0);
          buf = src;
          (e, l0, buf) = binary_Read buf l0;
          (e, l1, buf) = binary_Read buf l1;
          (e, r0, buf) = binary_Read buf r0;
          (e, r1, buf) = binary_Read buf r1;
          (l0, l1, r0, r1) = Encrypt_loop c 1 (l0, l1, r0, r1);
          (f0, f1) = f (k0 c ! 16) (k1 c ! 16) r0 r1;
          l0 = l0 XOR f0;
          l1 = l1 XOR f1;
          buf = [];
          (e, buf) = binary_Write buf l0;
          (e, buf) = binary_Write buf l1;
          (e, buf) = binary_Write buf r0;
          (e, buf) = binary_Write buf r1
      in Inr (c, go_copy dst buf))"

subsection \<open>Decrypt\<close>

definition Decrypt_round :: "SEEDCipher \<Rightarrow> nat \<Rightarrow> block \<Rightarrow> block" where
  "Decrypt_round c i st =
     (case st of (l0, l1, r0, r1) \<Rightarrow>
        let (t0, t1) = (l0, l1);
            (f0, f1) = f (k0 c ! i) (k1 c ! i) t0 t1;
            (l0, l1) = (r0 XOR f0, r1 XOR f1);
            (r0, r1) = (t0, t1)
        in (l0, l1, r0, r1))"

function Decrypt_loop :: "SEEDCipher \<Rightarrow> nat \<Rightarrow> block \<Rightarrow> block" where
  "Decrypt_loop c i st =
     (if i \<ge> 1 then Decrypt_loop c (i - 1) (Decrypt_round c i st) else st)"
  by pat_completeness auto
termination
  by (relation "measure (\<lambda>(c, i, st). i)") auto

declare Decrypt_loop.simps [simp del]

fun Decrypt :: "SEEDCipher option \<Rightarrow> byte list \<Rightarrow> byte list \<Rightarrow> panic + SEEDCipher \<times> byte list" where
  "Decrypt None dst src = Inl NilPointerDereference"
| "Decrypt (Some c) dst src =
     (let (l0, l1, r0, r1) = (0, 0, 0, 0);
          buf = src;
          (e, l0, buf) = binary_Read buf l0;
          (e, l1, buf) = binary_Read buf l1;
          (e, r0, buf) = binary_Read buf r0;
          (e, r1, buf) = binary_Read buf r1;
          (f0, f1) = f (k0 c ! 16) (k1 c ! 16) r0 r1;
          l0 = l0 XOR f0;
          l1 = l1 XOR f1;
          (l0, l1, r0, r1) = Decrypt_loop c 15 (l0, l1, r0, r1);
          buf = [];
          (e, buf) = binary_Write buf l0;
          (e, buf) = binary_Write buf l1;
          (e, buf) = binary_Write buf r0;
          (e, buf) = binary_Write buf r1
      in Inr (c, go_copy dst buf))"

subsection \<open>Reset\<close>

text \<open>\<open>range c.k0\<close> runs over the indices of the array, 0 to 16.\<close>

function Reset_loop :: "nat \<Rightarrow> SEEDCipher \<Rightarrow> SEEDCipher" where
  "Reset_loop i c =
     (if i < 17 then
        Reset_loop (i + 1) (let c = c\<lparr>k0 := (k0 c)[i := 0]\<rparr>; c = c\<lparr>k1 := (k1 c)[i := 0]\<rparr> in c)
      else c)"
  by pat_completeness auto
termination
  by (relation "measure (\<lambda>(i, c). 17 - i)") auto

declare Reset_loop.simps [simp del]

fun Reset :: "SEEDCipher option \<Rightarrow> panic + SEEDCipher" where
  "Reset None = Inl NilPointerDereference"
| "Reset (Some c) = Inr (Reset_loop 0 c)"

subsection \<open>The key schedule and the constructor\<close>

type_synonym subkeys_state = "SEEDCipher \<times> u32 \<times> u32 \<times> u32 \<times> u32"

definition subkeys_round :: "nat \<Rightarrow> subkeys_state \<Rightarrow> subkeys_state" where
  "subkeys_round i st =
     (case st of (c, key0, key1, key2, key3) \<Rightarrow>
        let c = c\<lparr>k0 := (k0 c)[i := g (key0 + key2 - kc ! i)]\<rparr>;
            c = c\<lparr>k1 := (k1 c)[i := g (key1 - key3 + kc ! i)]\<rparr>
        in if i AND 1 = 1 then
             (let (key0, key1) = rotrbyte32 key0 key1 in (c, key0, key1, key2, key3))
           else
             (let (key2, key3) = rotlbyte32 key2 key3 in (c, key0, key1, key2, key3)))"

function subkeys_loop :: "nat \<Rightarrow> subkeys_state \<Rightarrow> subkeys_state" where
  "subkeys_loop i st =
     (if i \<le> 16 then subkeys_loop (i + 1) (subkeys_round i st) else st)"
  by pat_completeness auto
termination
  by (relation "measure (\<lambda>(i, st). 17 - i)") auto

declare subkeys_loop.simps [simp del]

text \<open>
  \<open>subkeys\<close> is unexported and called by \<open>NewSEED\<close> alone, on the instance it has just
  allocated: its receiver is never nil.
\<close>

definition subkeys :: "SEEDCipher \<Rightarrow> byte list \<Rightarrow> SEEDCipher" where
  "subkeys c key =
     (let (key0, key1, key2, key3) = (0, 0, 0, 0);
          buf = key;
          (e, key0, buf) = binary_Read buf key0;
          (e, key1, buf) = binary_Read buf key1;
          (e, key2, buf) = binary_Read buf key2;
          (e, key3, buf) = binary_Read buf key3
      in fst (subkeys_loop 1 (c, key0, key1, key2, key3)))"

text \<open>The two results of \<open>NewSEED\<close>: the pointer (\<open>None\<close> is nil) and the error.\<close>

definition NewSEED :: "byte list \<Rightarrow> SEEDCipher option \<times> error option" where
  "NewSEED key =
     (let c = new_SEEDCipher in
      if length key \<noteq> 16 then (None, Some (KeySizeError (int (length key))))
      else (Some (subkeys c key), None))"

definition BlockSize :: "SEEDCipher option \<Rightarrow> int" where
  "BlockSize c = 16"

section \<open>Definitions for the statements\<close>

subsection \<open>The parts of Encrypt and Decrypt\<close>

text \<open>
  The values the four reads leave in \<open>l0, l1, r0, r1\<close> (each variable starts at 0), the
  bytes the four writes produce, and the last round shared by \<open>Encrypt\<close> and
  \<open>Decrypt\<close>.
\<close>

definition read_words :: "byte list \<Rightarrow> block" where
  "read_words src =
     (let (e, l0, buf) = binary_Read src 0;
          (e, l1, buf) = binary_Read buf 0;
          (e, r0, buf) = binary_Read buf 0;
          (e, r1, buf) = binary_Read buf 0
      in (l0, l1, r0, r1))"

definition write_words :: "block \<Rightarrow> byte list" where
  "write_words st =
     (case st of (l0, l1, r0, r1) \<Rightarrow>
        BigEndian_PutUint32 l0 @ BigEndian_PutUint32 l1 @ BigEndian_PutUint32 r0
          @ BigEndian_PutUint32 r1)"

definition final_round :: "SEEDCipher \<Rightarrow> block \<Rightarrow> block" where
  "final_round c st =
     (case st of (l0, l1, r0, r1) \<Rightarrow>
        let (f0, f1) = f (k0 c ! 16) (k1 c ! 16) r0 r1 in (l0 XOR f0, l1 XOR f1, r0, r1))"


subsection \<open>Rotation of a 64-bit value, as the specification describes it\<close>

definition cat64 :: "u32 \<Rightarrow> u32 \<Rightarrow> 64 word" where
  "cat64 x0 x1 = word_cat x0 x1"

definition halves64 :: "64 word \<Rightarrow> u32 \<times> u32" where
  "halves64 w = (ucast (drop_bit 32 w), ucast w)"

definition spec_rotl8 :: "u32 \<Rightarrow> u32 \<Rightarrow> u32 \<times> u32" where
  "spec_rotl8 x0 x1 = halves64 (word_rotl 8 (cat64 x0 x1))"

definition spec_rotr8 :: "u32 \<Rightarrow> u32 \<Rightarrow> u32 \<times> u32" where
  "spec_rotr8 x0 x1 = halves64 (word_rotr 8 (cat64 x0 x1))"


subsection \<open>The block transform and the key schedule, as the specification describes them\<close>

text \<open>
  Big-endian words by arithmetic; the round with the staged \<open>F_spec\<close>; the key words
  \<open>spec_key_words K n\<close> after the rotation of round \<open>n\<close>, which are the words round
  \<open>n + 1\<close> uses.
\<close>

definition spec_be32 :: "byte list \<Rightarrow> u32" where
  "spec_be32 b =
     word_of_nat (unat (b ! 0) * 2 ^ 24 + unat (b ! 1) * 2 ^ 16 + unat (b ! 2) * 2 ^ 8 + unat (b ! 3))"

definition spec_be32_bytes :: "u32 \<Rightarrow> byte list" where
  "spec_be32_bytes w =
     [word_of_nat (unat w div 2 ^ 24 mod 256), word_of_nat (unat w div 2 ^ 16 mod 256),
      word_of_nat (unat w div 2 ^ 8 mod 256), word_of_nat (unat w mod 256)]"

definition spec_unpack :: "byte list \<Rightarrow> block" where
  "spec_unpack b =
     (spec_be32 (take 4 b), spec_be32 (take 4 (drop 4 b)), spec_be32 (take 4 (drop 8 b)),
      spec_be32 (take 4 (drop 12 b)))"

definition spec_pack :: "block \<Rightarrow> byte list" where
  "spec_pack st =
     (case st of (L0, L1, R0, R1) \<Rightarrow>
        spec_be32_bytes L0 @ spec_be32_bytes L1 @ spec_be32_bytes R0 @ spec_be32_bytes R1)"

definition spec_round :: "SEEDCipher \<Rightarrow> nat \<Rightarrow> block \<Rightarrow> block" where
  "spec_round c i st =
     (case st of (L0, L1, R0, R1) \<Rightarrow>
        case F_spec (k0 c ! i) (k1 c ! i) R0 R1 of (f0, f1) \<Rightarrow>
          (R0, R1, L0 XOR f0, L1 XOR f1))"

fun spec_rounds :: "SEEDCipher \<Rightarrow> nat \<Rightarrow> block \<Rightarrow> block" where
  "spec_rounds c 0 st = st"
| "spec_rounds c (Suc n) st = spec_round c (Suc n) (spec_rounds c n st)"

definition spec_final_round :: "SEEDCipher \<Rightarrow> block \<Rightarrow> block" where
  "spec_final_round c st =
     (case st of (L0, L1, R0, R1) \<Rightarrow>
        case F_spec (k0 c ! 16) (k1 c ! 16) R0 R1 of (f0, f1) \<Rightarrow>
          (L0 XOR f0, L1 XOR f1, R0, R1))"

definition spec_Encrypt :: "SEEDCipher \<Rightarrow> byte list \<Rightarrow> byte list" where
  "spec_Encrypt c b = spec_pack (spec_final_round c (spec_rounds c 15 (spec_unpack b)))"

fun spec_key_words :: "byte list \<Rightarrow> nat \<Rightarrow> block" where
  "spec_key_words K 0 = spec_unpack K"
| "spec_key_words K (Suc n) =
     (case spec_key_words K n of (key0, key1, key2, key3) \<Rightarrow>
        if odd (Suc n) then (case spec_rotr8 key0 key1 of (a, b) \<Rightarrow> (a, b, key2, key3))
        else (case spec_rotl8 key2 key3 of (a, b) \<Rightarrow> (key0, key1, a, b)))"

definition spec_k0 :: "byte list \<Rightarrow> nat \<Rightarrow> u32" where
  "spec_k0 K i = (case spec_key_words K (i - 1) of (key0, key1, key2, key3) \<Rightarrow> g (key0 + key2 - kc ! i))"

definition spec_k1 :: "byte list \<Rightarrow> nat \<Rightarrow> u32" where
  "spec_k1 K i = (case spec_key_words K (i - 1) of (key0, key1, key2, key3) \<Rightarrow> g (key1 - key3 + kc ! i))"

fun subkeys_after :: "nat \<Rightarrow> subkeys_state \<Rightarrow> subkeys_state" where
  "subkeys_after 0 st = st"
| "subkeys_after (Suc n) st = subkeys_round (Suc n) (subkeys_after n st)"


subsection \<open>Short input buffers\<close>

text \<open>
  The 16-byte input that has the complete 4-byte groups of \<open>src\<close> (at most four) in
  front and zero bytes after them.
\<close>

definition zero_fill :: "byte list \<Rightarrow> byte list" where
  "zero_fill src = (let n = 4 * (min (length src) 16 div 4) in take n src @ replicate (16 - n) 0)"


section \<open>Auxiliary lemmas\<close>

subsection \<open>The table lookups of G stay inside the tables\<close>

lemma length_ss: "length ss0 = 256" "length ss1 = 256" "length ss2 = 256" "length ss3 = 256"
  by (simp_all add: ss0_def ss1_def ss2_def ss3_def)

lemma unat_byte_of_word:
  "unat (x AND (0xff :: u32)) < 256"
  "unat (drop_bit 8 (x AND (0xff00 :: u32))) < 256"
  "unat (drop_bit 16 (x AND (0xff0000 :: u32))) < 256"
  "unat (drop_bit 24 (x AND (0xff000000 :: u32))) < 256"
proof -
  have a: "unat (y AND m) \<le> unat m" for y m :: u32
    by (rule word_and_le1 [THEN word_le_nat_alt [THEN iffD1]])
  show "unat (x AND (0xff :: u32)) < 256"
    using a[of x "0xff"] by simp
  show "unat (drop_bit 8 (x AND (0xff00 :: u32))) < 256"
    using a[of x "0xff00"] by (simp add: drop_bit_eq_div unat_div div_less_iff_less_mult)
  show "unat (drop_bit 16 (x AND (0xff0000 :: u32))) < 256"
    using a[of x "0xff0000"] by (simp add: drop_bit_eq_div unat_div div_less_iff_less_mult)
  show "unat (drop_bit 24 (x AND (0xff000000 :: u32))) < 256"
    using a[of x "0xff000000"] by (simp add: drop_bit_eq_div unat_div div_less_iff_less_mult)
qed

lemma g_index_in_range:
  "unat (x AND (0xff :: u32)) < length ss0"
  "unat (drop_bit 8 (x AND (0xff00 :: u32))) < length ss1"
  "unat (drop_bit 16 (x AND (0xff0000 :: u32))) < length ss2"
  "unat (drop_bit 24 (x AND (0xff000000 :: u32))) < length ss3"
  by (simp_all only: length_ss unat_byte_of_word)

subsection \<open>Packing and unpacking\<close>

lemma Encrypt_Some:
  "Encrypt (Some c) dst src =
     Inr (c, go_copy dst (write_words (final_round c (Encrypt_loop c 1 (read_words src)))))"
  by (simp add: read_words_def write_words_def final_round_def binary_Write_def Let_def
      split: prod.splits)

lemma Decrypt_Some:
  "Decrypt (Some c) dst src =
     Inr (c, go_copy dst (write_words (Decrypt_loop c 15 (final_round c (read_words src)))))"
  by (simp add: read_words_def write_words_def final_round_def binary_Write_def Let_def
      split: prod.splits)

lemma length_write_words [simp]: "length (write_words st) = 16"
  by (simp add: write_words_def BigEndian_PutUint32_def split: prod.splits)

lemma BigEndian_get_put: "BigEndian_Uint32 (BigEndian_PutUint32 v) = v"
  unfolding BigEndian_Uint32_def BigEndian_PutUint32_def
  apply simp
  apply (rule bit_word_eqI)
  subgoal for n
    by (cases "n < 8"; cases "n < 16"; cases "n < 24") (auto simp add: bit_simps)
  done

lemma BigEndian_put_get: "BigEndian_PutUint32 (BigEndian_Uint32 [a, b, c, d]) = [a, b, c, d]"
  unfolding BigEndian_Uint32_def BigEndian_PutUint32_def
  apply simp
  apply (intro conjI; rule bit_word_eqI)
  apply (auto simp add: bit_simps dest: bit_imp_le_length)
  done

lemma length_PutUint32 [simp]: "length (BigEndian_PutUint32 v) = 4"
  by (simp add: BigEndian_PutUint32_def)

lemma binary_Read_put:
  "binary_Read (BigEndian_PutUint32 v @ rest) w = (None, v, rest)"
  by (simp add: binary_Read_def BigEndian_get_put)

lemma read_write_words: "read_words (write_words st @ rest) = st"
  by (simp add: read_words_def write_words_def binary_Read_put split: prod.splits)

lemma list16:
  assumes "length (xs :: 'a list) = 16"
  obtains a0 a1 a2 a3 a4 a5 a6 a7 a8 a9 a10 a11 a12 a13 a14 a15
  where "xs = [a0, a1, a2, a3, a4, a5, a6, a7, a8, a9, a10, a11, a12, a13, a14, a15]"
  using assms by (auto simp add: length_Suc_conv eval_nat_numeral)

lemma write_read_words:
  assumes "length src = 16"
  shows "write_words (read_words src) = src"
proof -
  from assms obtain a0 a1 a2 a3 a4 a5 a6 a7 a8 a9 a10 a11 a12 a13 a14 a15
    where "src = [a0, a1, a2, a3, a4, a5, a6, a7, a8, a9, a10, a11, a12, a13, a14, a15]"
    by (rule list16)
  then show ?thesis
    by (simp add: read_words_def write_words_def binary_Read_def BigEndian_put_get)
qed

lemma read_words_take:
  "16 \<le> length src \<Longrightarrow> read_words (take 16 src) = read_words src"
  by (simp add: read_words_def binary_Read_def take_drop min_def)

lemma final_round_involution: "final_round c (final_round c st) = st"
  by (simp add: final_round_def Let_def xor.assoc split: prod.splits)

lemma Decrypt_Encrypt_round: "Decrypt_round c i (Encrypt_round c i st) = st"
  by (simp add: Decrypt_round_def Encrypt_round_def Let_def xor.assoc split: prod.splits)

lemma Decrypt_Encrypt_loop:
  "1 \<le> i \<Longrightarrow> i \<le> 16 \<Longrightarrow> Decrypt_loop c 15 (Encrypt_loop c i st) = Decrypt_loop c (i - 1) st"
proof (induction c i st rule: Encrypt_loop.induct)
  case (1 c i st)
  show ?case
  proof (cases "i \<le> 15")
    case True
    with 1 have "Decrypt_loop c 15 (Encrypt_loop c (i + 1) (Encrypt_round c i st))
        = Decrypt_loop c i (Encrypt_round c i st)" by simp
    also have "\<dots> = Decrypt_loop c (i - 1) st"
      using 1(2) by (subst Decrypt_loop.simps) (simp add: Decrypt_Encrypt_round)
    finally show ?thesis using True by (subst Encrypt_loop.simps) simp
  next
    case False
    with 1 have "i = 16" by simp
    then show ?thesis by (subst Encrypt_loop.simps) simp
  qed
qed

lemma Decrypt_loop_0: "Decrypt_loop c 0 st = st"
  by (subst Decrypt_loop.simps) simp

lemma go_copy_long: "length s \<le> length dst \<Longrightarrow> go_copy dst s = s @ drop (length s) dst"
  by (simp add: go_copy_def Let_def min_def)


subsection \<open>The byte rotations\<close>

lemma mod64_shift: "a < 64 \<Longrightarrow> b = a + 64 \<Longrightarrow> b mod 64 = (a::nat)"
  by simp

lemma rot_idx_wrap:
  "n < 32 \<Longrightarrow> (88 + n) mod 64 = 24 + (n::nat)"
  "n < 32 \<Longrightarrow> (n + 88) mod 64 = 24 + (n::nat)"
  "8 \<le> n \<Longrightarrow> n < 32 \<Longrightarrow> (56 + n) mod 64 = n - (8::nat)"
  "8 \<le> n \<Longrightarrow> n < 32 \<Longrightarrow> (n + 56) mod 64 = n - (8::nat)"
  "24 \<le> n \<Longrightarrow> n < 32 \<Longrightarrow> (40 + n) mod 64 = n - (24::nat)"
  "24 \<le> n \<Longrightarrow> n < 32 \<Longrightarrow> (n + 40) mod 64 = n - (24::nat)"
  by (rule mod64_shift; simp)+

lemma rot_idx_small:
  "n < 8 \<Longrightarrow> (56 + n) mod 64 = 56 + (n::nat)"
  "n < 8 \<Longrightarrow> (n + 56) mod 64 = 56 + (n::nat)"
  "n < 24 \<Longrightarrow> (40 + n) mod 64 = 40 + (n::nat)"
  "n < 24 \<Longrightarrow> (n + 40) mod 64 = 40 + (n::nat)"
  "n < 32 \<Longrightarrow> (8 + n) mod 64 = n + (8::nat)"
  "n < 32 \<Longrightarrow> (n + 8) mod 64 = n + (8::nat)"
  by simp_all

lemmas rot_idx = rot_idx_wrap rot_idx_small

lemma mask_hi: "(0xff000000 :: u32) = push_bit 24 (mask 8)"
  by (simp add: mask_eq_exp_minus_1)

lemma mask_lo: "(0xff :: u32) = mask 8"
  by (simp add: mask_eq_exp_minus_1)

lemma rotl_eq: "rotlbyte32 x0 x1 = spec_rotl8 x0 x1"
  unfolding rotlbyte32_def spec_rotl8_def halves64_def cat64_def Let_def mask_hi word_cat_eq_push_bit_or
  apply (simp only: prod.inject)
  apply (intro conjI; rule bit_word_eqI)
  subgoal for n
    apply (cases "n < 8")
    apply (auto simp add: bit_simps rot_idx dest: bit_imp_le_length)
    done
  subgoal for n
    apply (cases "n < 8")
    apply (auto simp add: bit_simps rot_idx dest: bit_imp_le_length)
    done
  done

lemma rotr_eq: "rotrbyte32 x0 x1 = spec_rotr8 x0 x1"
  unfolding rotrbyte32_def spec_rotr8_def halves64_def cat64_def Let_def mask_lo word_cat_eq_push_bit_or
  apply (simp only: prod.inject)
  apply (intro conjI; rule bit_word_eqI)
  subgoal for n
    apply (cases "n < 24")
    apply (auto simp add: bit_simps rot_idx dest: bit_imp_le_length)
    done
  subgoal for n
    apply (cases "n < 24")
    apply (auto simp add: bit_simps rot_idx dest: bit_imp_le_length)
    apply (simp_all add: add.commute)
    done
  done

lemma rotr_rotl: "(case rotlbyte32 x0 x1 of (a, b) \<Rightarrow> rotrbyte32 a b) = (x0, x1)"
  unfolding rotrbyte32_def rotlbyte32_def Let_def mask_lo mask_hi
  apply (simp only: prod.case prod.inject)
  apply (intro conjI; rule bit_word_eqI)
  subgoal for n
    apply (cases "n < 24")
    apply (auto simp add: bit_simps  dest: bit_imp_le_length)
    done
  subgoal for n
    apply (cases "n < 24")
    apply (auto simp add: bit_simps  dest: bit_imp_le_length)
    done
  done

lemma rotl_rotr: "(case rotrbyte32 x0 x1 of (a, b) \<Rightarrow> rotlbyte32 a b) = (x0, x1)"
  unfolding rotrbyte32_def rotlbyte32_def Let_def mask_lo mask_hi
  apply (simp only: prod.case prod.inject)
  apply (intro conjI; rule bit_word_eqI)
  subgoal for n
    apply (cases "n < 8")
    apply (auto simp add: bit_simps  dest: bit_imp_le_length)
    done
  subgoal for n
    apply (cases "n < 8")
    apply (auto simp add: bit_simps  dest: bit_imp_le_length)
    done
  done


subsection \<open>The source against the description of the specification\<close>

lemma or_bytes_eq_sum:
  "(ucast (d::byte) :: u32) OR push_bit 8 (ucast (c::byte)) OR push_bit 16 (ucast (b::byte))
       OR push_bit 24 (ucast (a::byte))
   = ucast a * 2 ^ 24 + ucast b * 2 ^ 16 + ucast c * 2 ^ 8 + ucast d"
proof -
  have 1: "(push_bit 16 (ucast b) :: u32) + push_bit 24 (ucast a)
      = push_bit 16 (ucast b) OR push_bit 24 (ucast a)"
    by (rule disjunctive_add) (auto simp add: bit_simps dest: bit_imp_le_length)
  have 2: "(push_bit 8 (ucast c) :: u32) + (push_bit 16 (ucast b) OR push_bit 24 (ucast a))
      = push_bit 8 (ucast c) OR push_bit 16 (ucast b) OR push_bit 24 (ucast a)"
    by (rule disjunctive_add) (auto simp add: bit_simps dest: bit_imp_le_length)
  have 3: "(ucast d :: u32) + (push_bit 8 (ucast c) OR push_bit 16 (ucast b) OR push_bit 24 (ucast a))
      = ucast d OR push_bit 8 (ucast c) OR push_bit 16 (ucast b) OR push_bit 24 (ucast a)"
    by (rule disjunctive_add) (auto simp add: bit_simps dest: bit_imp_le_length)
  show ?thesis
    apply (subst 3[symmetric])
    apply (subst 2[symmetric])
    apply (subst 1[symmetric])
    apply (simp add: push_bit_eq_mult)
    done
qed

lemma BigEndian_Uint32_spec: "BigEndian_Uint32 b = spec_be32 b"
  unfolding BigEndian_Uint32_def spec_be32_def or_bytes_eq_sum
  by simp

lemma BigEndian_PutUint32_spec: "BigEndian_PutUint32 w = spec_be32_bytes w"
proof -
  have n: "(256::nat) = 2 ^ 8" by simp
  show ?thesis
    unfolding BigEndian_PutUint32_def spec_be32_bytes_def
    apply (simp only: list.inject simp_thms)
    apply (intro conjI; rule bit_word_eqI)
    apply (simp_all only: n drop_bit_eq_div[symmetric] take_bit_eq_mod[symmetric])
    apply (simp_all add: bit_simps)
    done
qed

lemma read_words_16: "length src = 16 \<Longrightarrow> read_words src = spec_unpack src"
  by (simp add: read_words_def spec_unpack_def binary_Read_def BigEndian_Uint32_spec)

lemma write_words_spec: "write_words st = spec_pack st"
  by (simp add: write_words_def spec_pack_def BigEndian_PutUint32_spec)

lemma f_staged: "f ka kb ra rb = F_spec ka kb ra rb"
  by (simp add: f_def F_spec_def Let_def)

lemma Encrypt_round_spec: "Encrypt_round c i st = spec_round c i st"
  by (simp add: Encrypt_round_def spec_round_def f_staged split: prod.splits)

lemma final_round_spec: "final_round c st = spec_final_round c st"
  by (simp add: final_round_def spec_final_round_def f_staged split: prod.splits)

lemma Encrypt_loop_spec:
  "1 \<le> i \<Longrightarrow> i \<le> 16 \<Longrightarrow> Encrypt_loop c i (spec_rounds c (i - 1) st) = spec_rounds c 15 st"
proof (induction k \<equiv> "16 - i" arbitrary: i)
  case 0
  then have "i = 16" by simp
  then show ?case by (subst Encrypt_loop.simps) simp
next
  case (Suc k)
  then have i: "i \<le> 15" "1 \<le> i" by simp_all
  then have s: "Encrypt_round c i (spec_rounds c (i - 1) st) = spec_rounds c (i + 1 - 1) st"
    by (cases i) (simp_all add: Encrypt_round_spec)
  have "Encrypt_loop c (i + 1) (spec_rounds c (i + 1 - 1) st) = spec_rounds c 15 st"
    using Suc(2) i by (intro Suc(1)) simp_all
  with s i show ?case by (subst Encrypt_loop.simps) simp
qed



subsection \<open>Encrypt and Decrypt on buffers of at least 16 bytes\<close>

declare Encrypt.simps(2) [simp del] Decrypt.simps(2) [simp del]

lemma Decrypt_loop_Encrypt_loop: "Decrypt_loop c 15 (Encrypt_loop c 1 st) = st"
  using Decrypt_Encrypt_loop[of 1 c st] by (simp add: Decrypt_loop_0)

lemma Encrypt_long:
  "16 \<le> length dst \<Longrightarrow>
   Encrypt (Some c) dst src =
     Inr (c, write_words (final_round c (Encrypt_loop c 1 (read_words src))) @ drop 16 dst)"
  by (simp add: Encrypt_Some go_copy_long)

lemma Decrypt_long:
  "16 \<le> length dst \<Longrightarrow>
   Decrypt (Some c) dst src =
     Inr (c, write_words (Decrypt_loop c 15 (final_round c (read_words src))) @ drop 16 dst)"
  by (simp add: Decrypt_Some go_copy_long)

lemma Decrypt_Encrypt_any_keys:
  assumes "length P = 16" and "16 \<le> length dst" and "16 \<le> length dst'"
  shows "\<exists>ct. Encrypt (Some c) dst P = Inr (c, ct)
           \<and> Decrypt (Some c) dst' ct = Inr (c, P @ drop 16 dst')"
proof -
  let ?X = "final_round c (Encrypt_loop c 1 (read_words P))"
  let ?ct = "write_words ?X @ drop 16 dst"
  have e: "Encrypt (Some c) dst P = Inr (c, ?ct)"
    using assms(2) by (rule Encrypt_long)
  have "Decrypt_loop c 15 (final_round c (read_words ?ct)) = read_words P"
    by (simp only: read_write_words final_round_involution Decrypt_loop_Encrypt_loop)
  then have "Decrypt (Some c) dst' ?ct = Inr (c, P @ drop 16 dst')"
    using assms(1,3) by (simp only: Decrypt_long write_read_words)
  with e show ?thesis by blast
qed

lemma NewSEED_16: "length K = 16 \<Longrightarrow> NewSEED K = (Some (subkeys new_SEEDCipher K), None)"
  by (simp add: NewSEED_def)


subsection \<open>Buffers of any length\<close>

lemma BigEndian_Uint32_zero: "BigEndian_Uint32 [0, 0, 0, 0] = 0"
  by (simp add: BigEndian_Uint32_def)

lemma zero_fill_cases:
  "length src < 4 \<Longrightarrow> zero_fill src = replicate 16 0"
  "4 \<le> length src \<Longrightarrow> length src < 8 \<Longrightarrow> zero_fill src = take 4 src @ replicate 12 0"
  "8 \<le> length src \<Longrightarrow> length src < 12 \<Longrightarrow> zero_fill src = take 8 src @ replicate 8 0"
  "12 \<le> length src \<Longrightarrow> length src < 16 \<Longrightarrow> zero_fill src = take 12 src @ replicate 4 0"
  "16 \<le> length src \<Longrightarrow> zero_fill src = take 16 src"
proof -
  show "length src < 4 \<Longrightarrow> zero_fill src = replicate 16 0"
    by (simp add: zero_fill_def Let_def min_def)
  show "4 \<le> length src \<Longrightarrow> length src < 8 \<Longrightarrow> zero_fill src = take 4 src @ replicate 12 0"
  proof -
    assume a: "4 \<le> length src" "length src < 8"
    then have "length src div 4 = 1" by simp
    with a show ?thesis by (simp add: zero_fill_def Let_def min_def)
  qed
  show "8 \<le> length src \<Longrightarrow> length src < 12 \<Longrightarrow> zero_fill src = take 8 src @ replicate 8 0"
  proof -
    assume a: "8 \<le> length src" "length src < 12"
    then have "length src div 4 = 2" by simp
    with a show ?thesis by (simp add: zero_fill_def Let_def min_def)
  qed
  show "12 \<le> length src \<Longrightarrow> length src < 16 \<Longrightarrow> zero_fill src = take 12 src @ replicate 4 0"
  proof -
    assume a: "12 \<le> length src" "length src < 16"
    then have "length src div 4 = 3" by simp
    with a show ?thesis by (simp add: zero_fill_def Let_def min_def)
  qed
  show "16 \<le> length src \<Longrightarrow> zero_fill src = take 16 src"
    by (simp add: zero_fill_def Let_def min_def)
qed

lemma rep_zero:
  "replicate 16 (0::byte) = [0,0,0,0,0,0,0,0,0,0,0,0,0,0,0,0]"
  "replicate 12 (0::byte) = [0,0,0,0,0,0,0,0,0,0,0,0]"
  "replicate 8 (0::byte) = [0,0,0,0,0,0,0,0]"
  "replicate 4 (0::byte) = [0,0,0,0]"
  by (simp_all add: eval_nat_numeral)

lemma read_words_zero_fill: "read_words (zero_fill src) = read_words src"
proof -
  consider "length src < 4" | "4 \<le> length src" "length src < 8"
    | "8 \<le> length src" "length src < 12" | "12 \<le> length src" "length src < 16"
    | "16 \<le> length src"
    by linarith
  then show ?thesis
  proof cases
    case 1
    then show ?thesis
      by (auto simp add: zero_fill_cases rep_zero read_words_def binary_Read_def BigEndian_Uint32_zero)
  next
    case 2
    then show ?thesis
      by (auto simp add: zero_fill_cases rep_zero read_words_def binary_Read_def BigEndian_Uint32_zero)
  next
    case 3
    then show ?thesis
      by (auto simp add: zero_fill_cases rep_zero read_words_def binary_Read_def BigEndian_Uint32_zero
          take_drop)
  next
    case 4
    then show ?thesis
      by (auto simp add: zero_fill_cases rep_zero read_words_def binary_Read_def BigEndian_Uint32_zero
          take_drop)
  next
    case 5
    then show ?thesis
      by (simp add: zero_fill_cases read_words_take)
  qed
qed

lemma go_copy_16: "length s = 16 \<Longrightarrow> go_copy dst s = take (length dst) s @ drop 16 dst"
  by (simp add: go_copy_def Let_def min_def)


lemma Encrypt_any_length:
  "\<exists>out. length out = 16
     \<and> Encrypt (Some c) (replicate 16 0) (zero_fill src) = Inr (c, out)
     \<and> Encrypt (Some c) dst src = Inr (c, take (length dst) out @ drop 16 dst)"
  by (simp add: Encrypt_Some read_words_zero_fill go_copy_16)

lemma Decrypt_any_length:
  "\<exists>out. length out = 16
     \<and> Decrypt (Some c) (replicate 16 0) (zero_fill src) = Inr (c, out)
     \<and> Decrypt (Some c) dst src = Inr (c, take (length dst) out @ drop 16 dst)"
  by (simp add: Decrypt_Some read_words_zero_fill go_copy_16)

subsection \<open>Reset\<close>

lemma Reset_loop_eq:
  "i \<le> 17 \<Longrightarrow> length (k0 c) = 17 \<Longrightarrow> length (k1 c) = 17 \<Longrightarrow>
   Reset_loop i c = \<lparr>k0 = take i (k0 c) @ replicate (17 - i) 0,
                      k1 = take i (k1 c) @ replicate (17 - i) 0\<rparr>"
proof (induction i c rule: Reset_loop.induct)
  case (1 i c)
  show ?case
  proof (cases "i < 17")
    case True
    let ?c = "c\<lparr>k0 := (k0 c)[i := 0], k1 := (k1 c)[i := 0]\<rparr>"
    have r: "replicate (17 - i) (0::u32) = 0 # replicate (17 - (i + 1)) 0"
      using True by (cases "17 - i") simp_all
    have "Reset_loop (i + 1) ?c
        = \<lparr>k0 = take (i + 1) (k0 ?c) @ replicate (17 - (i + 1)) 0,
            k1 = take (i + 1) (k1 ?c) @ replicate (17 - (i + 1)) 0\<rparr>"
      using True 1(3,4) 1(1)[OF True] by (simp add: Let_def)
    also have "\<dots> = \<lparr>k0 = take i (k0 c) @ replicate (17 - i) 0,
                      k1 = take i (k1 c) @ replicate (17 - i) 0\<rparr>"
      using True 1(3,4) by (simp add: r take_Suc_conv_app_nth)
    finally show ?thesis
      using True by (subst Reset_loop.simps) (simp add: Let_def)
  next
    case False
    with 1 have "i = 17" by simp
    with 1(3,4) show ?thesis by (subst Reset_loop.simps) simp
  qed
qed

subsection \<open>The key schedule\<close>

lemma subkeys_loop_after:
  "1 \<le> i \<Longrightarrow> i \<le> 17 \<Longrightarrow> subkeys_loop i (subkeys_after (i - 1) st) = subkeys_after 16 st"
proof (induction k \<equiv> "17 - i" arbitrary: i)
  case 0
  then have "i = 17" by simp
  then show ?case by (subst subkeys_loop.simps) simp
next
  case (Suc k)
  then have i: "i \<le> 16" "1 \<le> i" by simp_all
  then have s: "subkeys_round i (subkeys_after (i - 1) st) = subkeys_after (i + 1 - 1) st"
    by (cases i) simp_all
  have "subkeys_loop (i + 1) (subkeys_after (i + 1 - 1) st) = subkeys_after 16 st"
    using Suc(2) i by (intro Suc(1)) simp_all
  with s i show ?case by (subst subkeys_loop.simps) simp
qed

lemma subkeys_16:
  "length K = 16 \<Longrightarrow> subkeys c K = fst (subkeys_after 16 (c, spec_unpack K))"
  using subkeys_loop_after[of 1 "(c, spec_unpack K)"]
  by (simp add: subkeys_def binary_Read_def BigEndian_Uint32_spec spec_unpack_def)

lemma subkeys_round_fst:
  "fst (subkeys_round i (c, key0, key1, key2, key3))
     = \<lparr>k0 = (k0 c)[i := g (key0 + key2 - kc ! i)], k1 = (k1 c)[i := g (key1 - key3 + kc ! i)]\<rparr>"
  by (simp add: subkeys_round_def Let_def split: prod.splits)

lemma subkeys_round_snd:
  "snd (subkeys_round i (c, key0, key1, key2, key3))
     = (if odd i then (case spec_rotr8 key0 key1 of (a, b) \<Rightarrow> (a, b, key2, key3))
        else (case spec_rotl8 key2 key3 of (a, b) \<Rightarrow> (key0, key1, a, b)))"
  by (simp add: subkeys_round_def Let_def and_one_eq rotl_eq rotr_eq mod_2_eq_odd
      split: prod.splits)

lemma subkeys_after_snd:
  "snd (subkeys_after n (c, spec_unpack K)) = spec_key_words K n"
proof (induction n)
  case 0
  show ?case by simp
next
  case (Suc n)
  obtain c' key0 key1 key2 key3
    where s: "subkeys_after n (c, spec_unpack K) = (c', key0, key1, key2, key3)"
    by (metis prod.exhaust)
  with Suc have w: "spec_key_words K n = (key0, key1, key2, key3)" by simp
  show ?case
    by (simp only: subkeys_after.simps spec_key_words.simps s w subkeys_round_snd prod.case)
qed

lemma subkeys_after_length:
  "length (k0 (fst (subkeys_after n st))) = length (k0 (fst st))
   \<and> length (k1 (fst (subkeys_after n st))) = length (k1 (fst st))"
proof (induction n)
  case 0
  show ?case by simp
next
  case (Suc n)
  obtain c' key0 key1 key2 key3
    where s: "subkeys_after n st = (c', key0, key1, key2, key3)"
    by (metis prod.exhaust)
  with Suc show ?case by (simp add: subkeys_round_fst)
qed

lemma subkeys_after_entries:
  assumes "length (k0 c) = 17" and "length (k1 c) = 17" and "n \<le> 16"
  shows "k0 (fst (subkeys_after n (c, spec_unpack K))) ! j
           = (if 1 \<le> j \<and> j \<le> n then spec_k0 K j else k0 c ! j)
       \<and> k1 (fst (subkeys_after n (c, spec_unpack K))) ! j
           = (if 1 \<le> j \<and> j \<le> n then spec_k1 K j else k1 c ! j)"
  using assms(3)
proof (induction n)
  case 0
  show ?case by auto
next
  case (Suc n)
  obtain c' key0 key1 key2 key3
    where s: "subkeys_after n (c, spec_unpack K) = (c', key0, key1, key2, key3)"
    by (metis prod.exhaust)
  have w: "spec_key_words K n = (key0, key1, key2, key3)"
    using subkeys_after_snd[of n c K] s by simp
  have l: "length (k0 c') = 17" "length (k1 c') = 17"
    using subkeys_after_length[of n "(c, spec_unpack K)"] s assms(1,2) by simp_all
  have ih: "k0 c' ! j = (if 1 \<le> j \<and> j \<le> n then spec_k0 K j else k0 c ! j)"
    "k1 c' ! j = (if 1 \<le> j \<and> j \<le> n then spec_k1 K j else k1 c ! j)"
    using Suc s by simp_all
  have n: "Suc n < 17" using Suc(2) by simp
  show ?case
  proof (cases "j = Suc n")
    case True
    with l n w show ?thesis
      by (simp add: s subkeys_round_fst spec_k0_def spec_k1_def)
  next
    case False
    with ih show ?thesis
      by (auto simp add: s subkeys_round_fst)
  qed
qed

lemma new_SEEDCipher_ok: "SEEDCipher_ok new_SEEDCipher"
  by (simp add: SEEDCipher_ok_def new_SEEDCipher_def)

lemma subkeys_ok:
  "length K = 16 \<Longrightarrow> SEEDCipher_ok c \<Longrightarrow> SEEDCipher_ok (subkeys c K)"
  using subkeys_after_length[of 16 "(c, spec_unpack K)"]
  by (simp add: subkeys_16 SEEDCipher_ok_def)

lemma subkeys_entries:
  assumes "length K = 16" and "1 \<le> i" and "i \<le> 16"
  shows "k0 (subkeys new_SEEDCipher K) ! i = spec_k0 K i
         \<and> k1 (subkeys new_SEEDCipher K) ! i = spec_k1 K i"
  using subkeys_after_entries[of new_SEEDCipher 16 K i] assms
  by (simp add: subkeys_16 new_SEEDCipher_def)

lemma subkeys_entry_0:
  assumes "length K = 16"
  shows "k0 (subkeys new_SEEDCipher K) ! 0 = 0 \<and> k1 (subkeys new_SEEDCipher K) ! 0 = 0"
  using subkeys_after_entries[of new_SEEDCipher 16 K 0] assms
  by (simp add: subkeys_16 new_SEEDCipher_def)

lemma kc_1: "kc ! 1 = 0x9E3779B9"
  by (simp add: kc_def)

lemma length_kc: "length kc = 17"
  by (simp add: kc_def)


lemma g_61C88647: "g 0x61C88647 = 0x7C8F8C7E"
  by (simp add: g_def ss0_def ss1_def ss2_def ss3_def)

lemma g_9E3779B9: "g 0x9E3779B9 = 0xC737A22C"
  by (simp add: g_def ss0_def ss1_def ss2_def ss3_def)

lemma spec_unpack_zero: "spec_unpack (replicate 16 0) = (0, 0, 0, 0)"
  by (simp add: spec_unpack_def spec_be32_def rep_zero)

section \<open>The claims\<close>

text \<open>
  C1: for every 16-byte key K and every 16-byte block P, the cipher instance that
  \<open>NewSEED\<close> builds from K decrypts the encryption of P back to P. The output buffers
  hold at least 16 bytes; the bytes of the output buffer after the first 16 stay as they were.
\<close>

theorem Decrypt_inverts_Encrypt:
  assumes "length K = 16" and "length P = 16" and "16 \<le> length dst" and "16 \<le> length dst'"
  shows "\<exists>c ct. NewSEED K = (Some c, None)
           \<and> Encrypt (Some c) dst P = Inr (c, ct)
           \<and> Decrypt (Some c) dst' ct = Inr (c, P @ drop 16 dst')"
  using NewSEED_16[OF assms(1)] Decrypt_Encrypt_any_keys[OF assms(2,3,4)] by blast

theorem Decrypt_inverts_Encrypt_witness:
  "length (replicate 16 (0::byte)) = 16
   \<and> length [0, 1, 2, 3, 4, 5, 6, 7, 8, 9, 10, 11, 12, 13, 14, 15 :: byte] = 16
   \<and> 16 \<le> length (replicate 16 (0::byte))
   \<and> (\<exists>c ct. NewSEED (replicate 16 0) = (Some c, None)
           \<and> Encrypt (Some c) (replicate 16 0) [0, 1, 2, 3, 4, 5, 6, 7, 8, 9, 10, 11, 12, 13, 14, 15]
                 = Inr (c, ct)
           \<and> Decrypt (Some c) (replicate 16 0) ct
                 = Inr (c, [0, 1, 2, 3, 4, 5, 6, 7, 8, 9, 10, 11, 12, 13, 14, 15]))"
  using Decrypt_inverts_Encrypt[of "replicate 16 0"
      "[0, 1, 2, 3, 4, 5, 6, 7, 8, 9, 10, 11, 12, 13, 14, 15]" "replicate 16 0" "replicate 16 0"]
  by simp

text \<open>
  C2: for every cipher instance and every 16-byte block, \<open>Encrypt\<close> computes what the
  specification describes: the block is unpacked into the big-endian words L0, L1, R0, R1;
  rounds 1 to 15 set (L0, L1, R0, R1) to (R0, R1, L0 XOR f0, L1 XOR f1) with
  (f0, f1) = F(k0[i], k1[i], R0, R1); the last round, with the keys of index 16, changes
  L0 and L1 only; the four words are packed big-endian in the same order into the first 16
  bytes of the output buffer.
\<close>

theorem Encrypt_follows_specification:
  assumes "length src = 16" and "16 \<le> length dst"
  shows "Encrypt (Some c) dst src = Inr (c, spec_Encrypt c src @ drop 16 dst)
         \<and> length (spec_Encrypt c src) = 16"
proof -
  have l: "Encrypt_loop c 1 (spec_unpack src) = spec_rounds c 15 (spec_unpack src)"
    using Encrypt_loop_spec[of 1 c "spec_unpack src"] by simp
  have "Encrypt (Some c) dst src = Inr (c, go_copy dst (spec_Encrypt c src))"
    unfolding Encrypt_Some read_words_16[OF assms(1)] l write_words_spec final_round_spec
      spec_Encrypt_def
    by (rule refl)
  moreover have n: "length (spec_Encrypt c src) = 16"
    unfolding spec_Encrypt_def write_words_spec[symmetric] by (rule length_write_words)
  ultimately show ?thesis using assms(2) by (simp add: go_copy_long)
qed

theorem Encrypt_follows_specification_witness:
  "length [0, 1, 2, 3, 4, 5, 6, 7, 8, 9, 10, 11, 12, 13, 14, 15 :: byte] = 16
   \<and> 16 \<le> length (replicate 16 (0::byte))
   \<and> Encrypt (Some new_SEEDCipher) (replicate 16 0)
         [0, 1, 2, 3, 4, 5, 6, 7, 8, 9, 10, 11, 12, 13, 14, 15]
       = Inr (new_SEEDCipher,
           spec_Encrypt new_SEEDCipher [0, 1, 2, 3, 4, 5, 6, 7, 8, 9, 10, 11, 12, 13, 14, 15])"
  using Encrypt_follows_specification[of
      "[0, 1, 2, 3, 4, 5, 6, 7, 8, 9, 10, 11, 12, 13, 14, 15]" "replicate 16 0" new_SEEDCipher]
  by simp

text \<open>
  C3: for every 16-byte key, the key schedule reads the key as the big-endian words key0,
  key1, key2, key3 and sets, for each round i from 1 to 16, k0[i] = G(key0 + key2 - KC[i])
  and k1[i] = G(key1 - key3 + KC[i]) modulo 2^32, where after an odd round (key0, key1) is
  rotated right by one byte and after an even round (key2, key3) is rotated left by one
  byte (rotations of the 64-bit pair); KC[1] is 0x9E3779B9.
\<close>

theorem subkeys_follow_specification:
  assumes "length K = 16"
  shows "\<exists>c. NewSEED K = (Some c, None) \<and> SEEDCipher_ok c
           \<and> (\<forall>i\<in>{1..16}. k0 c ! i = spec_k0 K i \<and> k1 c ! i = spec_k1 K i)
           \<and> kc ! 1 = 0x9E3779B9"
proof -
  have "SEEDCipher_ok (subkeys new_SEEDCipher K)"
    using assms new_SEEDCipher_ok by (rule subkeys_ok)
  moreover have "\<forall>i\<in>{1..16}. k0 (subkeys new_SEEDCipher K) ! i = spec_k0 K i
                   \<and> k1 (subkeys new_SEEDCipher K) ! i = spec_k1 K i"
    using subkeys_entries[OF assms] by simp
  ultimately show ?thesis
    using NewSEED_16[OF assms] kc_1 by blast
qed

theorem subkeys_follow_specification_witness:
  "length (replicate 16 (0::byte)) = 16
   \<and> (\<exists>c. NewSEED (replicate 16 0) = (Some c, None) \<and> SEEDCipher_ok c
         \<and> k0 c ! 1 = 0x7C8F8C7E \<and> k1 c ! 1 = 0xC737A22C
         \<and> k0 c ! 16 = spec_k0 (replicate 16 0) 16 \<and> k1 c ! 16 = spec_k1 (replicate 16 0) 16)"
proof -
  have h: "length (replicate 16 (0::byte)) = 16" by simp
  have "spec_k0 (replicate 16 0) 1 = g (0 + 0 - kc ! 1)"
    by (simp add: spec_k0_def spec_unpack_zero)
  also have "(0::u32) + 0 - kc ! 1 = 0x61C88647"
    by (simp add: kc_def)
  finally have a: "spec_k0 (replicate 16 0) 1 = 0x7C8F8C7E"
    by (simp only: g_61C88647)
  have "spec_k1 (replicate 16 0) 1 = g (0 - 0 + kc ! 1)"
    by (simp add: spec_k1_def spec_unpack_zero)
  also have "(0::u32) - 0 + kc ! 1 = 0x9E3779B9"
    by (simp add: kc_def)
  finally have b: "spec_k1 (replicate 16 0) 1 = 0xC737A22C"
    by (simp only: g_9E3779B9)
  from subkeys_follow_specification[OF h] obtain c
    where c: "NewSEED (replicate 16 0) = (Some c, None)" "SEEDCipher_ok c"
      "\<forall>i\<in>{1..16}. k0 c ! i = spec_k0 (replicate 16 0) i \<and> k1 c ! i = spec_k1 (replicate 16 0) i"
    by blast
  from c(3) have "k0 c ! 1 = spec_k0 (replicate 16 0) 1" "k1 c ! 1 = spec_k1 (replicate 16 0) 1"
    "k0 c ! 16 = spec_k0 (replicate 16 0) 16" "k1 c ! 16 = spec_k1 (replicate 16 0) 16"
    by simp_all
  with a b c(1,2) h show ?thesis by simp
qed

text \<open>
  C4: for all 32-bit words, the nested expressions of the source's round function compute
  the staged definition of the specification: with a = r0 XOR k0, b = r1 XOR k1,
  c = a XOR b, g1 = G(c), g2 = G(g1 + a), g3 = G(g2 + g1), the result is (g3 + g2, g3),
  all additions modulo 2^32.
\<close>

theorem f_computes_staged_F:
  "f ka kb r0 r1 = F_spec ka kb r0 r1"
  by (simp add: f_def F_spec_def Let_def)

text \<open>
  C5: \<open>NewSEED\<close> succeeds exactly on keys of 16 bytes. For a key of any other length it
  returns no instance and the key-size error that carries the length received; for a key
  of 16 bytes it returns the instance with the key schedule computed, and no error.
\<close>

theorem NewSEED_key_size:
  "(length key = 16 \<longrightarrow>
      (\<exists>c. NewSEED key = (Some c, None) \<and> SEEDCipher_ok c \<and> c = subkeys new_SEEDCipher key))
   \<and> (length key \<noteq> 16 \<longrightarrow> NewSEED key = (None, Some (KeySizeError (int (length key)))))"
  using subkeys_ok[of key new_SEEDCipher] new_SEEDCipher_ok
  by (simp add: NewSEED_def)

theorem NewSEED_key_size_witness:
  "NewSEED [] = (None, Some (KeySizeError 0))
   \<and> NewSEED (replicate 15 0) = (None, Some (KeySizeError 15))
   \<and> NewSEED (replicate 17 0) = (None, Some (KeySizeError 17))
   \<and> NewSEED (replicate 32 0) = (None, Some (KeySizeError 32))
   \<and> (\<exists>c. NewSEED (replicate 16 0) = (Some c, None) \<and> SEEDCipher_ok c
         \<and> c = subkeys new_SEEDCipher (replicate 16 0))"
  using NewSEED_key_size[of "[]"] NewSEED_key_size[of "replicate 15 0"]
    NewSEED_key_size[of "replicate 17 0"] NewSEED_key_size[of "replicate 32 0"]
    NewSEED_key_size[of "replicate 16 0"]
  by simp

text \<open>
  C6, as the code has it: a call of \<open>Encrypt\<close> or \<open>Decrypt\<close> on a cipher instance with
  an input or an output buffer shorter than 16 bytes does not fail. It returns as the call
  on the zero-filled input does (every 32-bit word whose four bytes are not all present is
  read as 0), and it writes the first \<open>len(dst)\<close> bytes of the 16 result bytes only.
\<close>

theorem short_buffers_no_failure:
  assumes "length src < 16 \<or> length dst < 16"
  shows "(\<exists>out. length out = 16
           \<and> Encrypt (Some c) (replicate 16 0) (zero_fill src) = Inr (c, out)
           \<and> Encrypt (Some c) dst src = Inr (c, take (length dst) out @ drop 16 dst))
       \<and> (\<exists>out. length out = 16
           \<and> Decrypt (Some c) (replicate 16 0) (zero_fill src) = Inr (c, out)
           \<and> Decrypt (Some c) dst src = Inr (c, take (length dst) out @ drop 16 dst))"
  using Encrypt_any_length[of c src dst] Decrypt_any_length[of c src dst] by blast

theorem short_buffers_no_failure_witness:
  "(length [1, 2, 3, 4, 5, 6 :: byte] < 16 \<or> length [9, 9, 9 :: byte] < 16)
   \<and> ((\<exists>out. length out = 16
         \<and> Encrypt (Some new_SEEDCipher) (replicate 16 0) (zero_fill [1, 2, 3, 4, 5, 6])
             = Inr (new_SEEDCipher, out)
         \<and> Encrypt (Some new_SEEDCipher) [9, 9, 9] [1, 2, 3, 4, 5, 6]
             = Inr (new_SEEDCipher, take (length [9, 9, 9 :: byte]) out @ drop 16 [9, 9, 9]))
      \<and> (\<exists>out. length out = 16
         \<and> Decrypt (Some new_SEEDCipher) (replicate 16 0) (zero_fill [1, 2, 3, 4, 5, 6])
             = Inr (new_SEEDCipher, out)
         \<and> Decrypt (Some new_SEEDCipher) [9, 9, 9] [1, 2, 3, 4, 5, 6]
             = Inr (new_SEEDCipher, take (length [9, 9, 9 :: byte]) out @ drop 16 [9, 9, 9])))"
proof -
  have h: "length [1, 2, 3, 4, 5, 6 :: byte] < 16 \<or> length [9, 9, 9 :: byte] < 16"
    by simp
  from h short_buffers_no_failure[OF h, of new_SEEDCipher] show ?thesis
    by (rule conjI)
qed

text \<open>
  The claim as the specification states it (a short buffer makes the call fail) does not
  hold: with the instance built from the all-zero key, a 3-byte input and an empty output
  buffer, both calls return; and the 3-byte input encrypts as 16 zero bytes do.
\<close>

theorem short_buffers_counterexample:
  "length [1, 2, 3 :: byte] < 16 \<and> length ([] :: byte list) < 16
   \<and> NewSEED (replicate 16 0) = (Some (subkeys new_SEEDCipher (replicate 16 0)), None)
   \<and> Encrypt (Some (subkeys new_SEEDCipher (replicate 16 0))) [] [1, 2, 3]
       = Inr (subkeys new_SEEDCipher (replicate 16 0), [])
   \<and> Decrypt (Some (subkeys new_SEEDCipher (replicate 16 0))) [] [1, 2, 3]
       = Inr (subkeys new_SEEDCipher (replicate 16 0), [])
   \<and> Encrypt (Some (subkeys new_SEEDCipher (replicate 16 0))) (replicate 16 0) [1, 2, 3]
       = Encrypt (Some (subkeys new_SEEDCipher (replicate 16 0))) (replicate 16 0) (replicate 16 0)"
proof -
  have r: "read_words [1, 2, 3] = read_words (replicate 16 0)"
    using read_words_zero_fill[of "[1, 2, 3]"] by (simp add: zero_fill_cases)
  show ?thesis
    by (simp add: NewSEED_def Encrypt_Some Decrypt_Some go_copy_def r)
qed

text \<open>
  C7: for all 32-bit words x0 and x1, \<open>rotlbyte32\<close> returns the two halves of the 64-bit
  value x0 || x1 rotated left by 8 bits and \<open>rotrbyte32\<close> the halves of that value
  rotated right by 8 bits; the two functions are total and undo each other.
\<close>

theorem rotbyte32_rotate_64_bits:
  "rotlbyte32 x0 x1 = halves64 (word_rotl 8 (cat64 x0 x1))
   \<and> rotrbyte32 x0 x1 = halves64 (word_rotr 8 (cat64 x0 x1))
   \<and> (case rotlbyte32 x0 x1 of (y0, y1) \<Rightarrow> rotrbyte32 y0 y1) = (x0, x1)
   \<and> (case rotrbyte32 x0 x1 of (y0, y1) \<Rightarrow> rotlbyte32 y0 y1) = (x0, x1)"
  using rotl_eq[of x0 x1] rotr_eq[of x0 x1] rotr_rotl[of x0 x1] rotl_rotr[of x0 x1]
  by (simp only: spec_rotl8_def spec_rotr8_def simp_thms)

text \<open>
  C8: after \<open>Reset\<close> on a cipher instance every entry of k0 and of k1 is zero, and a
  second \<open>Reset\<close> leaves the instance in that all-zero state.
\<close>

theorem Reset_zeroes_round_keys:
  assumes "SEEDCipher_ok c"
  shows "\<exists>c'. Reset (Some c) = Inr c' \<and> k0 c' = replicate 17 0 \<and> k1 c' = replicate 17 0
           \<and> Reset (Some c') = Inr c'"
proof -
  have l: "length (k0 c) = 17" "length (k1 c) = 17"
    using assms by (simp_all add: SEEDCipher_ok_def)
  have "Reset_loop 0 c = \<lparr>k0 = replicate 17 0, k1 = replicate 17 0\<rparr>"
    using Reset_loop_eq[of 0 c] l by simp
  moreover have "Reset_loop 0 \<lparr>k0 = replicate 17 0, k1 = replicate 17 0\<rparr>
      = \<lparr>k0 = replicate 17 0, k1 = replicate 17 0\<rparr>"
    using Reset_loop_eq[of 0 "\<lparr>k0 = replicate 17 0, k1 = replicate 17 0\<rparr>"] by simp
  ultimately show ?thesis by simp
qed

theorem Reset_zeroes_round_keys_witness:
  "SEEDCipher_ok \<lparr>k0 = [0, 1, 2, 3, 4, 5, 6, 7, 8, 9, 10, 11, 12, 13, 14, 15, 16],
                   k1 = [0, 21, 22, 23, 24, 25, 26, 27, 28, 29, 30, 31, 32, 33, 34, 35, 36]\<rparr>
   \<and> (\<exists>c'. Reset (Some \<lparr>k0 = [0, 1, 2, 3, 4, 5, 6, 7, 8, 9, 10, 11, 12, 13, 14, 15, 16],
                   k1 = [0, 21, 22, 23, 24, 25, 26, 27, 28, 29, 30, 31, 32, 33, 34, 35, 36]\<rparr>)
               = Inr c'
         \<and> k0 c' = replicate 17 0 \<and> k1 c' = replicate 17 0 \<and> Reset (Some c') = Inr c')"
proof -
  have ok: "SEEDCipher_ok \<lparr>k0 = [0, 1, 2, 3, 4, 5, 6, 7, 8, 9, 10, 11, 12, 13, 14, 15, 16],
                   k1 = [0, 21, 22, 23, 24, 25, 26, 27, 28, 29, 30, 31, 32, 33, 34, 35, 36]\<rparr>"
    by (simp add: SEEDCipher_ok_def)
  from ok Reset_zeroes_round_keys[OF ok] show ?thesis by (rule conjI)
qed

text \<open>
  C9: for every cipher instance and all buffers, \<open>Encrypt\<close> and \<open>Decrypt\<close> return with
  the fields k0 and k1 of the instance unchanged.
\<close>

theorem Encrypt_Decrypt_keep_round_keys:
  "(\<exists>c' out. Encrypt (Some c) dst src = Inr (c', out) \<and> k0 c' = k0 c \<and> k1 c' = k1 c)
   \<and> (\<exists>c' out. Decrypt (Some c) dst src = Inr (c', out) \<and> k0 c' = k0 c \<and> k1 c' = k1 c)"
  by (simp add: Encrypt_Some Decrypt_Some)

text \<open>
  C10: with at least 16 bytes in the input and in the output buffer, \<open>Encrypt\<close> and
  \<open>Decrypt\<close> depend on the first 16 bytes of the input only (two inputs that agree there
  give the same 16 output bytes), write bytes 0 to 15 of the output buffer and leave its
  bytes from index 16 on as they were.
\<close>

theorem Encrypt_Decrypt_first_16_bytes:
  assumes "16 \<le> length src" and "16 \<le> length src'" and "take 16 src' = take 16 src"
    and "16 \<le> length dst" and "16 \<le> length dst'"
  shows "\<exists>e d. length e = 16 \<and> length d = 16
           \<and> Encrypt (Some c) dst src = Inr (c, e @ drop 16 dst)
           \<and> Encrypt (Some c) dst' src' = Inr (c, e @ drop 16 dst')
           \<and> Decrypt (Some c) dst src = Inr (c, d @ drop 16 dst)
           \<and> Decrypt (Some c) dst' src' = Inr (c, d @ drop 16 dst')"
proof -
  have "read_words src' = read_words (take 16 src')"
    using assms(2) by (simp only: read_words_take)
  also have "\<dots> = read_words src"
    using assms(1,3) by (simp only: read_words_take)
  finally have r: "read_words src' = read_words src" .
  show ?thesis
    using assms(4,5) by (simp add: Encrypt_long Decrypt_long r)
qed

theorem Encrypt_Decrypt_first_16_bytes_witness:
  "16 \<le> length ([0, 1, 2, 3, 4, 5, 6, 7, 8, 9, 10, 11, 12, 13, 14, 15] @ [1, 2 :: byte])
   \<and> 16 \<le> length ([0, 1, 2, 3, 4, 5, 6, 7, 8, 9, 10, 11, 12, 13, 14, 15] @ [7 :: byte])
   \<and> take 16 ([0, 1, 2, 3, 4, 5, 6, 7, 8, 9, 10, 11, 12, 13, 14, 15] @ [7 :: byte])
       = take 16 ([0, 1, 2, 3, 4, 5, 6, 7, 8, 9, 10, 11, 12, 13, 14, 15] @ [1, 2])
   \<and> 16 \<le> length (replicate 18 (170 :: byte))
   \<and> 16 \<le> length (replicate 16 (0 :: byte))
   \<and> (\<exists>e d. length e = 16 \<and> length d = 16
         \<and> Encrypt (Some new_SEEDCipher) (replicate 18 170)
               ([0, 1, 2, 3, 4, 5, 6, 7, 8, 9, 10, 11, 12, 13, 14, 15] @ [1, 2])
             = Inr (new_SEEDCipher, e @ [170, 170])
         \<and> Encrypt (Some new_SEEDCipher) (replicate 16 0)
               ([0, 1, 2, 3, 4, 5, 6, 7, 8, 9, 10, 11, 12, 13, 14, 15] @ [7])
             = Inr (new_SEEDCipher, e)
         \<and> Decrypt (Some new_SEEDCipher) (replicate 18 170)
               ([0, 1, 2, 3, 4, 5, 6, 7, 8, 9, 10, 11, 12, 13, 14, 15] @ [1, 2])
             = Inr (new_SEEDCipher, d @ [170, 170])
         \<and> Decrypt (Some new_SEEDCipher) (replicate 16 0)
               ([0, 1, 2, 3, 4, 5, 6, 7, 8, 9, 10, 11, 12, 13, 14, 15] @ [7])
             = Inr (new_SEEDCipher, d))"
  using Encrypt_Decrypt_first_16_bytes[of
      "[0, 1, 2, 3, 4, 5, 6, 7, 8, 9, 10, 11, 12, 13, 14, 15] @ [1, 2]"
      "[0, 1, 2, 3, 4, 5, 6, 7, 8, 9, 10, 11, 12, 13, 14, 15] @ [7]"
      "replicate 18 170" "replicate 16 0" new_SEEDCipher]
  by (simp add: eval_nat_numeral)

end
